theory Spec2Isabelle
  imports Complex_Main
begin

section \<open>The MQTT relay cover: data model\<close>

text \<open>
  The entity of \<^verbatim>\<open>mqtt_relay_cover.py\<close> is a Python object driven by coroutines. The
  embedding passes the object explicitly: a record \<open>cover\<close> holds the attributes of
  \<^verbatim>\<open>MQTTRelayCover\<close>, and its field \<open>hass\<close> holds the part of Home Assistant the entity
  talks to (the monotonic clock, the storage directory, what the other tasks and the
  collaborators do while this coroutine is suspended, and the log of every call made
  to a collaborator). A coroutine is a function from the object to the object after
  the call, paired with the exception that left the coroutine, if any: attributes
  assigned before a \<^verbatim>\<open>raise\<close> stay assigned.

  Times are Python floats in the source; they are rationals here (exact arithmetic).
  A position is \<^verbatim>\<open>int | None\<close> in the source and becomes a float inside the sampling
  loop; it is \<open>rat option\<close> here.

  One coroutine is followed at a time. The \<^verbatim>\<open>asyncio.Lock\<close> is therefore not a field
  of the record, and another task reaches the coroutine followed in one way only: by
  running \<^verbatim>\<open>async_stop_cover\<close> while it is suspended, which clears the two flags. What
  that other task publishes and announces itself belongs to its own trace. The
  display names of the entity and the registration of the calibrate service play no
  part in what follows and are left out.
\<close>

datatype py_error =
    TypeError            \<comment> \<open>an ordering comparison with \<^verbatim>\<open>None\<close>\<close>
  | AttributeError       \<comment> \<open>an attribute of \<^verbatim>\<open>None\<close>\<close>
  | ZeroDivisionError    \<comment> \<open>float division by zero\<close>
  | CollaboratorError    \<comment> \<open>raised inside an awaited call of Home Assistant or asyncio\<close>

text \<open>A stored document: the dict \<^verbatim>\<open>{unique_id: position}\<close>, as JSON (a number or null).\<close>

type_synonym doc = "(string \<times> rat option) list"

datatype mqtt_status =
    Loaded        \<comment> \<open>an MQTT config entry exists and \<^verbatim>\<open>async_wait_component\<close> is true\<close>
  | Not_loaded    \<comment> \<open>an entry exists and \<^verbatim>\<open>async_wait_component\<close> is false\<close>
  | No_entries    \<comment> \<open>\<^verbatim>\<open>async_entries(mqtt.DOMAIN)\<close> is empty\<close>

text \<open>
  What happens while the coroutine is suspended in one \<^verbatim>\<open>await\<close>: how long the
  suspension lasts, whether another task runs \<^verbatim>\<open>async_stop_cover\<close> meanwhile (a
  \<^verbatim>\<open>stop\<close> call or the first line of an overlapping \<^verbatim>\<open>async_set_cover_position\<close>),
  whether the awaited call raises, and the state of the MQTT integration then.
\<close>

record step =
  dur :: rat
  stop_req :: bool
  raises :: bool
  mqtt :: mqtt_status

datatype event =
    Publish_call string            \<comment> \<open>\<^verbatim>\<open>__async_publish(payload)\<close> is entered\<close>
  | Mqtt_publish string string     \<comment> \<open>\<^verbatim>\<open>async_publish(hass, topic, payload)\<close>\<close>
  | Log_error                      \<comment> \<open>\<^verbatim>\<open>_LOGGER.error("MQTT integration is not available")\<close>\<close>
  | Monotonic rat                  \<comment> \<open>\<^verbatim>\<open>time.monotonic()\<close> and the value it returned\<close>
  | Sleep rat                      \<comment> \<open>\<^verbatim>\<open>asyncio.sleep(d)\<close>\<close>
  | Save string doc                \<comment> \<open>\<^verbatim>\<open>Store(key).async_save(doc)\<close>\<close>
  | Write_state "rat option" bool bool
      \<comment> \<open>\<^verbatim>\<open>async_write_ha_state()\<close>: the position and the opening and closing flags announced\<close>

record hass =
  clock :: rat
  storage :: "string \<rightharpoonup> doc"
  script :: "step list"
  trace :: "event list"

record cover =
  attr_is_closing :: bool
  attr_is_opening :: bool
  attr_current_cover_position :: "rat option"
  unique_id :: string
  store :: "string option"        \<comment> \<open>\<^verbatim>\<open>_store\<close>: the key of the \<^verbatim>\<open>Store\<close>, \<^verbatim>\<open>None\<close> until added\<close>
  opening_time :: rat             \<comment> \<open>\<^verbatim>\<open>_opening_time\<close>, seconds\<close>
  closing_time :: rat             \<comment> \<open>\<^verbatim>\<open>_closing_time\<close>, seconds\<close>
  mqtt_command_topic :: string
  mqtt_payload_open :: string
  mqtt_payload_close :: string
  mqtt_payload_stop :: string
  hass :: hass

text \<open>The entity configuration: optional keys are \<open>option\<close>s, times are milliseconds.\<close>

record entity_config =
  conf_unique_id :: "string option"
  conf_opening_time :: "int option"
  conf_closing_time :: "int option"
  conf_mqtt_command_topic :: string
  conf_mqtt_payload_open :: string
  conf_mqtt_payload_close :: string
  conf_mqtt_payload_stop :: string

definition DOMAIN :: string where
  "DOMAIN = ''mqtt_relay_cover''"

definition CHECK_INTERVAL :: rat where
  "CHECK_INTERVAL = 1 / 10"

definition MIN_POSITION :: int where
  "MIN_POSITION = 0"

definition MAX_POSITION :: int where
  "MAX_POSITION = 100"

definition MAX_PERCENT :: rat where
  "MAX_PERCENT = 100"

definition MILISECONDS_IN_SECOND :: rat where
  "MILISECONDS_IN_SECOND = 1000"

section \<open>Construction and start-up\<close>

text \<open>
  \<^verbatim>\<open>__init__\<close>: both flags false, no position, no store; the two travel times are
  read from the configuration and divided by \<^verbatim>\<open>_MILISECONDS_IN_SECOND\<close>. The default of
  the closing time is \<^verbatim>\<open>self._opening_time\<close>, the value already divided. The topic and
  the three payloads are required by the schema of \<^verbatim>\<open>cover.py\<close>; they are plain strings.
\<close>

definition init :: "string \<Rightarrow> entity_config \<Rightarrow> hass \<Rightarrow> cover" where
  "init object_id entity_config h =
     (let opening =
            (case conf_opening_time entity_config of None \<Rightarrow> 0 | Some ms \<Rightarrow> of_int ms)
              / MILISECONDS_IN_SECOND;
          closing =
            (case conf_closing_time entity_config of None \<Rightarrow> opening | Some ms \<Rightarrow> of_int ms)
              / MILISECONDS_IN_SECOND
      in \<lparr> attr_is_closing = False,
           attr_is_opening = False,
           attr_current_cover_position = None,
           unique_id = (case conf_unique_id entity_config of None \<Rightarrow> object_id | Some u \<Rightarrow> u),
           store = None,
           opening_time = opening,
           closing_time = closing,
           mqtt_command_topic = conf_mqtt_command_topic entity_config,
           mqtt_payload_open = conf_mqtt_payload_open entity_config,
           mqtt_payload_close = conf_mqtt_payload_close entity_config,
           mqtt_payload_stop = conf_mqtt_payload_stop entity_config,
           hass = h \<rparr>)"

section \<open>Suspension points and collaborators\<close>

definition emit :: "event \<Rightarrow> cover \<Rightarrow> cover" where
  "emit e w = w\<lparr>hass := (hass w)\<lparr>trace := trace (hass w) @ [e]\<rparr>\<rparr>"

text \<open>When the script is used up, a suspension is ideal: it lasts no longer than asked,
  nothing interferes, nothing raises, MQTT is loaded.\<close>

definition idle_step :: step where
  "idle_step = \<lparr> dur = 0, stop_req = False, raises = False, mqtt = Loaded \<rparr>"

text \<open>The step the next suspension meets.\<close>

definition head_step :: "step list \<Rightarrow> step" where
  "head_step xs = (case xs of [] \<Rightarrow> idle_step | x # _ \<Rightarrow> x)"

text \<open>
  One \<^verbatim>\<open>await\<close> that suspends for at least \<open>d\<close> seconds: the next step of the script
  is consumed, the clock advances by the larger of \<open>d\<close> and the step's duration (the
  clock is monotonic), and a stop requested by another task clears both flags, as
  the first two lines of \<^verbatim>\<open>async_stop_cover\<close> do.
\<close>

definition suspend :: "rat \<Rightarrow> cover \<Rightarrow> cover" where
  "suspend d w =
     (let s = head_step (script (hass w))
      in w\<lparr> attr_is_opening := attr_is_opening w \<and> \<not> stop_req s,
             attr_is_closing := attr_is_closing w \<and> \<not> stop_req s,
             hass := (hass w)\<lparr> clock := clock (hass w) + max d (dur s),
                               script := tl (script (hass w)) \<rparr> \<rparr>)"

text \<open>Sequencing of coroutine calls: an exception skips what follows.\<close>

definition and_then ::
  "cover \<times> py_error option \<Rightarrow> (cover \<Rightarrow> cover \<times> py_error option) \<Rightarrow> cover \<times> py_error option"
where
  "and_then r f = (case r of (w, Some e) \<Rightarrow> (w, Some e) | (w, None) \<Rightarrow> f w)"

text \<open>\<^verbatim>\<open>try: ... finally: await f()\<close>: \<open>f\<close> runs in both cases; an exception of \<open>f\<close>
  replaces the pending one.\<close>

definition try_finally ::
  "cover \<times> py_error option \<Rightarrow> (cover \<Rightarrow> cover \<times> py_error option) \<Rightarrow> cover \<times> py_error option"
where
  "try_finally r f =
     (case r of (w, pending) \<Rightarrow>
        (case f w of (w', Some e) \<Rightarrow> (w', Some e) | (w', None) \<Rightarrow> (w', pending)))"

definition async_write_ha_state :: "cover \<Rightarrow> cover" where
  "async_write_ha_state w =
     emit (Write_state (attr_current_cover_position w) (attr_is_opening w) (attr_is_closing w)) w"

text \<open>
  \<^verbatim>\<open>__async_publish\<close> with \<^verbatim>\<open>__isMQTTAvailable\<close> inlined: with no MQTT entry the error is
  logged and the result \<^verbatim>\<open>None\<close> is falsy; with an entry that is not loaded the result is
  \<^verbatim>\<open>False\<close>; in both cases nothing is published and nothing is raised.
\<close>

definition priv_async_publish :: "string \<Rightarrow> cover \<Rightarrow> cover \<times> py_error option" where
  "priv_async_publish payload w =
     (let w0 = emit (Publish_call payload) w;
          s = head_step (script (hass w0));
          w1 = suspend 0 w0
      in case mqtt s of
           No_entries \<Rightarrow> (emit Log_error w1, None)
         | Not_loaded \<Rightarrow> (w1, None)
         | Loaded \<Rightarrow>
             (emit (Mqtt_publish (mqtt_command_topic w1) payload) w1,
              if raises s then Some CollaboratorError else None))"

definition sleep :: "rat \<Rightarrow> cover \<Rightarrow> cover \<times> py_error option" where
  "sleep d w =
     (let w0 = emit (Sleep d) w;
          s = head_step (script (hass w0))
      in (suspend d w0, if raises s then Some CollaboratorError else None))"

text \<open>\<^verbatim>\<open>self._store.async_save(doc)\<close>: the document replaces what the key held.\<close>

definition async_save :: "doc \<Rightarrow> cover \<Rightarrow> cover \<times> py_error option" where
  "async_save d w =
     (case store w of
        None \<Rightarrow> (w, Some AttributeError)
      | Some key \<Rightarrow>
          (let w0 = emit (Save key d) w;
               s = head_step (script (hass w0));
               w1 = suspend 0 w0
           in if raises s then (w1, Some CollaboratorError)
              else (w1\<lparr>hass := (hass w1)\<lparr>storage := (storage (hass w1))(key \<mapsto> d)\<rparr>\<rparr>,
                    None)))"

text \<open>
  \<^verbatim>\<open>async_added_to_hass\<close>: \<^verbatim>\<open>Store.async_load\<close> returns the document, or \<^verbatim>\<open>None\<close> when
  nothing was ever saved under the key; \<^verbatim>\<open>stored_data.get\<close> is then an attribute of
  \<^verbatim>\<open>None\<close>.
\<close>

definition async_added_to_hass :: "cover \<Rightarrow> cover \<times> py_error option" where
  "async_added_to_hass w =
     (let w0 = w\<lparr>store := Some DOMAIN\<rparr>;
          s = head_step (script (hass w0));
          w1 = suspend 0 w0
      in if raises s then (w1, Some CollaboratorError)
         else (case storage (hass w1) DOMAIN of
                None \<Rightarrow> (w1, Some AttributeError)
              | Some stored_data \<Rightarrow>
                  (w1\<lparr>attr_current_cover_position :=
                        (case map_of stored_data (unique_id w1) of None \<Rightarrow> Some 0 | Some v \<Rightarrow> v)\<rparr>,
                   None)))"

section \<open>Stop, move, calibrate\<close>

definition async_stop_cover :: "cover \<Rightarrow> cover \<times> py_error option" where
  "async_stop_cover w =
     and_then
       (priv_async_publish (mqtt_payload_stop w)
          (w\<lparr>attr_is_opening := False, attr_is_closing := False\<rparr>))
       (\<lambda>w1. (async_write_ha_state w1, None))"

text \<open>The local variables of \<^verbatim>\<open>async_set_cover_position\<close> that the loop reads.\<close>

record locals =
  target_position :: int
  initial_position :: rat
  start_moving_time :: rat
  is_opening_direction :: bool
  movement_time :: rat

text \<open>
  The loop condition. \<^verbatim>\<open>and\<close> and \<^verbatim>\<open>or\<close> short-circuit: after the time test the
  position is compared only under a flag that is set, and comparing \<^verbatim>\<open>None\<close> raises.
\<close>

definition loop_condition :: "locals \<Rightarrow> rat \<Rightarrow> cover \<Rightarrow> py_error + bool" where
  "loop_condition l now w =
     (if \<not> now < start_moving_time l + movement_time l then Inr False
      else (case attr_current_cover_position w of
              None \<Rightarrow> if attr_is_opening w \<or> attr_is_closing w then Inl TypeError else Inr False
            | Some p \<Rightarrow>
                Inr ((attr_is_opening w \<and> p < of_int (target_position l))
                   \<or> (attr_is_closing w \<and> p > of_int (target_position l)))))"

text \<open>One pass of the loop body after the sleep; \<open>now\<close> is the reading taken by the
  loop condition, before the sleep.\<close>

definition loop_update :: "locals \<Rightarrow> rat \<Rightarrow> cover \<Rightarrow> cover \<times> py_error option" where
  "loop_update l now w =
     (let time_elapsed = now - start_moving_time l in
      if movement_time l = 0 then (w, Some ZeroDivisionError)
      else
        (let progress = time_elapsed / movement_time l * MAX_PERCENT in
         (async_write_ha_state
            (w\<lparr>attr_current_cover_position :=
                 Some (if is_opening_direction l
                       then min (initial_position l + progress) (of_int (target_position l))
                       else max (initial_position l - progress) (of_int (target_position l)))\<rparr>),
          None)))"

function sampling_loop :: "locals \<Rightarrow> cover \<Rightarrow> cover \<times> py_error option" where
  "sampling_loop l w =
     (let now = clock (hass w); w0 = emit (Monotonic now) w in
      case loop_condition l now w0 of
        Inl e \<Rightarrow> (w0, Some e)
      | Inr False \<Rightarrow> (w0, None)
      | Inr True \<Rightarrow>
          (case sleep CHECK_INTERVAL w0 of
             (w1, Some e) \<Rightarrow> (w1, Some e)
           | (w1, None) \<Rightarrow>
               (case loop_update l now w1 of
                  (w2, Some e) \<Rightarrow> (w2, Some e)
                | (w2, None) \<Rightarrow> sampling_loop l w2)))"
  by pat_completeness auto

text \<open>Every suspension moves the clock forward by at least the time asked for, and
  the loop body runs only before the deadline: the loop terminates.\<close>

lemma hass_emit [simp]:
  "clock (hass (emit e w)) = clock (hass w)"
  "script (hass (emit e w)) = script (hass w)"
  "storage (hass (emit e w)) = storage (hass w)"
  "trace (hass (emit e w)) = trace (hass w) @ [e]"
  by (simp_all add: emit_def)

lemma cover_emit [simp]:
  "attr_is_opening (emit e w) = attr_is_opening w"
  "attr_is_closing (emit e w) = attr_is_closing w"
  "attr_current_cover_position (emit e w) = attr_current_cover_position w"
  "unique_id (emit e w) = unique_id w"
  "store (emit e w) = store w"
  "opening_time (emit e w) = opening_time w"
  "closing_time (emit e w) = closing_time w"
  "mqtt_command_topic (emit e w) = mqtt_command_topic w"
  "mqtt_payload_open (emit e w) = mqtt_payload_open w"
  "mqtt_payload_close (emit e w) = mqtt_payload_close w"
  "mqtt_payload_stop (emit e w) = mqtt_payload_stop w"
  by (simp_all add: emit_def)

lemma sleep_clock: "sleep d w = (w1, e) \<Longrightarrow> clock (hass w) + d \<le> clock (hass w1)"
  by (auto simp: sleep_def suspend_def Let_def)

lemma loop_update_clock: "loop_update l now w = (w2, e) \<Longrightarrow> clock (hass w2) = clock (hass w)"
  by (auto simp: loop_update_def async_write_ha_state_def Let_def split: if_splits)

lemma loop_condition_time:
  "loop_condition l now w = Inr True \<Longrightarrow> now < start_moving_time l + movement_time l"
  by (auto simp: loop_condition_def split: if_splits)

termination sampling_loop
proof (relation "measure (\<lambda>(l, w).
         nat \<lceil>(start_moving_time l + movement_time l - clock (hass w)) * 10\<rceil>)", goal_cases)
  case 1
  show ?case by simp
next
  case (2 l w now w0 b w1 e1 w2 e2)
  let ?D = "start_moving_time l + movement_time l"
  have before: "clock (hass w) < ?D"
    using 2 loop_condition_time by auto
  have slept: "clock (hass w) + 1 / 10 \<le> clock (hass w1)"
    using sleep_clock[of CHECK_INTERVAL w0 w1 e1] 2 by (simp add: CHECK_INTERVAL_def)
  have same: "clock (hass w2) = clock (hass w1)"
    using loop_update_clock[of l now w1 w2 e2] 2 by simp
  have "(?D - clock (hass w2)) * 10 \<le> (?D - clock (hass w)) * 10 - 1"
    using slept same by simp
  then have "\<lceil>(?D - clock (hass w2)) * 10\<rceil> \<le> \<lceil>(?D - clock (hass w)) * 10 - 1\<rceil>"
    by (rule ceiling_mono)
  then have "\<lceil>(?D - clock (hass w2)) * 10\<rceil> \<le> \<lceil>(?D - clock (hass w)) * 10\<rceil> - 1"
    by simp
  moreover have "0 < \<lceil>(?D - clock (hass w)) * 10\<rceil>"
    using before by simp
  ultimately show ?case
    by simp
qed

declare sampling_loop.simps [simp del]

text \<open>The target: the keyword argument, 0 when absent, clamped to the two limits.\<close>

definition requested_target :: "int option \<Rightarrow> int" where
  "requested_target position_kw =
     max (min (case position_kw of None \<Rightarrow> 0 | Some p \<Rightarrow> p) MAX_POSITION) MIN_POSITION"

text \<open>
  The body of \<^verbatim>\<open>async with self._lock\<close>. Taking the lock is not a step of the model:
  one coroutine is followed, and the other tasks act on it through the script only.
  The clock is read before the target is compared with the initial position, so a
  cover whose position is still \<^verbatim>\<open>None\<close> raises after the reading.
\<close>

definition locked_section :: "int option \<Rightarrow> cover \<Rightarrow> cover \<times> py_error option" where
  "locked_section position_kw w =
     (let target = requested_target position_kw;
          w0 = emit (Monotonic (clock (hass w))) w
      in case attr_current_cover_position w0 of
           None \<Rightarrow> (w0, Some TypeError)
         | Some initial \<Rightarrow>
             (let opening = of_int target > initial;
                  l = \<lparr> target_position = target,
                        initial_position = initial,
                        start_moving_time = clock (hass w),
                        is_opening_direction = opening,
                        movement_time = (if opening then opening_time w0 else closing_time w0) \<rparr>;
                  w1 = w0\<lparr>attr_is_opening := opening, attr_is_closing := \<not> opening\<rparr>
              in and_then
                   (priv_async_publish
                      (if opening then mqtt_payload_open w1 else mqtt_payload_close w1) w1)
                   (\<lambda>w2. and_then (sampling_loop l w2)
                      (\<lambda>w3. async_save
                               [(unique_id w3, attr_current_cover_position w3)] w3))))"

text \<open>The first \<^verbatim>\<open>async_stop_cover\<close> is outside the \<^verbatim>\<open>try\<close>: if it raises, the call
  ends there.\<close>

definition async_set_cover_position :: "int option \<Rightarrow> cover \<Rightarrow> cover \<times> py_error option" where
  "async_set_cover_position position_kw w =
     and_then (async_stop_cover w)
       (\<lambda>w1. try_finally (locked_section position_kw w1) async_stop_cover)"

definition async_open_cover :: "cover \<Rightarrow> cover \<times> py_error option" where
  "async_open_cover w = async_set_cover_position (Some MAX_POSITION) w"

definition async_close_cover :: "cover \<Rightarrow> cover \<times> py_error option" where
  "async_close_cover w = async_set_cover_position (Some MIN_POSITION) w"

definition async_calibrate :: "cover \<Rightarrow> cover \<times> py_error option" where
  "async_calibrate w =
     and_then (priv_async_publish (mqtt_payload_open w)
                 (w\<lparr>attr_is_opening := False, attr_is_closing := False\<rparr>))
     (\<lambda>w. and_then (sleep (opening_time w + 1) w)
     (\<lambda>w. and_then (priv_async_publish (mqtt_payload_stop w) w)
     (\<lambda>w. and_then (sleep 1 w)
     (\<lambda>w. and_then (priv_async_publish (mqtt_payload_close w) w)
     (\<lambda>w. and_then (sleep (closing_time w + 1) w)
     (\<lambda>w. and_then (priv_async_publish (mqtt_payload_stop w) w)
     (\<lambda>w. and_then (sleep 1 w)
     (\<lambda>w. and_then
             (async_save [(unique_id w, Some 0)] (w\<lparr>attr_current_cover_position := Some 0\<rparr>))
     (\<lambda>w. (async_write_ha_state w, None))))))))))"

section \<open>Sequences of operations, and what a trace shows\<close>

datatype operation =
    Set_position "int option"
  | Open_cover
  | Close_cover
  | Stop_cover
  | Calibrate

fun run_operation :: "operation \<Rightarrow> cover \<Rightarrow> cover \<times> py_error option" where
  "run_operation (Set_position kw) w = async_set_cover_position kw w"
| "run_operation Open_cover w = async_open_cover w"
| "run_operation Close_cover w = async_close_cover w"
| "run_operation Stop_cover w = async_stop_cover w"
| "run_operation Calibrate w = async_calibrate w"

text \<open>One operation after the other; an exception goes to the caller of that operation
  and the entity lives on.\<close>

fun run_operations :: "operation list \<Rightarrow> cover \<Rightarrow> cover" where
  "run_operations [] w = w"
| "run_operations (x # xs) w = run_operations xs (fst (run_operation x w))"

fun published :: "event list \<Rightarrow> string list" where
  "published [] = []"
| "published (Mqtt_publish topic payload # es) = payload # published es"
| "published (_ # es) = published es"

fun publish_calls :: "event list \<Rightarrow> string list" where
  "publish_calls [] = []"
| "publish_calls (Publish_call payload # es) = payload # publish_calls es"
| "publish_calls (_ # es) = publish_calls es"

fun saved :: "event list \<Rightarrow> doc list" where
  "saved [] = []"
| "saved (Save key d # es) = d # saved es"
| "saved (_ # es) = saved es"

fun slept :: "event list \<Rightarrow> rat list" where
  "slept [] = []"
| "slept (Sleep d # es) = d # slept es"
| "slept (_ # es) = slept es"

fun readings :: "event list \<Rightarrow> rat list" where
  "readings [] = []"
| "readings (Monotonic t # es) = t # readings es"
| "readings (_ # es) = readings es"

text \<open>A step in which the collaborators work: nothing raises and MQTT is loaded.\<close>

definition nominal :: "step \<Rightarrow> bool" where
  "nominal s = (\<not> raises s \<and> mqtt s = Loaded)"

text \<open>A step in which nothing raises, whatever the state of MQTT.\<close>

definition unfailing :: "step \<Rightarrow> bool" where
  "unfailing s = (\<not> raises s)"


text \<open>A position between the two limits, and an event that shows only such positions:
  an announced state, a saved document.\<close>

definition good_position :: "rat option \<Rightarrow> bool" where
  "good_position pos =
     (case pos of None \<Rightarrow> False
      | Some p \<Rightarrow> of_int MIN_POSITION \<le> p \<and> p \<le> of_int MAX_POSITION)"

fun in_range_event :: "event \<Rightarrow> bool" where
  "in_range_event (Write_state pos opening closing) = good_position pos"
| "in_range_event (Save key d) = list_all (\<lambda>kv. good_position (snd kv)) d"
| "in_range_event _ = True"

text \<open>A state whose position and whose trace so far are within the limits.\<close>

definition within_limits :: "cover \<Rightarrow> bool" where
  "within_limits w =
     (good_position (attr_current_cover_position w)
      \<and> list_all in_range_event (trace (hass w)))"

text \<open>One pass of the loop whose condition held: the reading, the sleep, the update.\<close>

definition loop_pass :: "locals \<Rightarrow> cover \<Rightarrow> cover" where
  "loop_pass l w =
     fst (loop_update l (clock (hass w))
            (fst (sleep CHECK_INTERVAL (emit (Monotonic (clock (hass w))) w))))"

text \<open>What a cover with identifier \<open>uid\<close> finds in the document stored under a key:
  \<open>None\<close> when there is no document or the document does not name it.\<close>

definition stored_value :: "hass \<Rightarrow> string \<Rightarrow> string \<Rightarrow> rat option option" where
  "stored_value h key uid = (case storage h key of None \<Rightarrow> None | Some d \<Rightarrow> map_of d uid)"

text \<open>The position the loop body assigns from a reading of the clock.\<close>

definition estimate :: "locals \<Rightarrow> rat \<Rightarrow> rat" where
  "estimate l now =
     (if is_opening_direction l
      then min (initial_position l + (now - start_moving_time l) / movement_time l * 100)
               (of_int (target_position l))
      else max (initial_position l - (now - start_moving_time l) / movement_time l * 100)
               (of_int (target_position l)))"

text \<open>Concrete inputs: a cover with a full travel of ten seconds each way, at rest at
  the closed end, with its store attached, in a Home Assistant whose clock reads 5
  and where every suspension is ideal.\<close>

definition example_hass :: hass where
  "example_hass = \<lparr> clock = 5, storage = Map.empty, script = [], trace = [] \<rparr>"

definition example_config :: entity_config where
  "example_config =
     \<lparr> conf_unique_id = None,
       conf_opening_time = Some 10000,
       conf_closing_time = Some 10000,
       conf_mqtt_command_topic = ''relay/cmd'',
       conf_mqtt_payload_open = ''OPEN'',
       conf_mqtt_payload_close = ''CLOSE'',
       conf_mqtt_payload_stop = ''STOP'' \<rparr>"

definition example_cover :: cover where
  "example_cover =
     (init ''blind'' example_config example_hass)
       \<lparr> attr_current_cover_position := Some 0, store := Some DOMAIN \<rparr>"

section \<open>Properties of the building blocks\<close>

subsection \<open>Projections of a trace\<close>

lemma publish_calls_append [simp]: "publish_calls (xs @ ys) = publish_calls xs @ publish_calls ys"
  by (induction xs rule: publish_calls.induct) simp_all

lemma published_append [simp]: "published (xs @ ys) = published xs @ published ys"
  by (induction xs rule: published.induct) simp_all

lemma saved_append [simp]: "saved (xs @ ys) = saved xs @ saved ys"
  by (induction xs rule: saved.induct) simp_all

lemma slept_append [simp]: "slept (xs @ ys) = slept xs @ slept ys"
  by (induction xs rule: slept.induct) simp_all

lemma readings_append [simp]: "readings (xs @ ys) = readings xs @ readings ys"
  by (induction xs rule: readings.induct) simp_all

subsection \<open>Sequencing\<close>


lemma and_then_Some: "snd r = Some e \<Longrightarrow> and_then r f = (fst r, Some e)"
  by (cases r) (simp add: and_then_def)

lemma fst_and_then:
  "fst (and_then r f) = (case snd r of None \<Rightarrow> fst (f (fst r)) | Some e \<Rightarrow> fst r)"
  by (cases r; cases "snd r") (auto simp: and_then_def)

lemma snd_and_then:
  "snd (and_then r f) = (case snd r of None \<Rightarrow> snd (f (fst r)) | Some e \<Rightarrow> Some e)"
  by (cases r; cases "snd r") (auto simp: and_then_def)

lemma fst_try_finally: "fst (try_finally r f) = fst (f (fst r))"
  by (cases r; cases "f (fst r)"; cases "snd (f (fst r))") (auto simp: try_finally_def)

subsection \<open>Suspension\<close>

lemma hass_suspend [simp]:
  "clock (hass (suspend d w)) = clock (hass w) + max d (dur (head_step (script (hass w))))"
  "script (hass (suspend d w)) = tl (script (hass w))"
  "storage (hass (suspend d w)) = storage (hass w)"
  "trace (hass (suspend d w)) = trace (hass w)"
  by (simp_all add: suspend_def Let_def)

lemma cover_suspend [simp]:
  "attr_is_opening (suspend d w) = (attr_is_opening w \<and> \<not> stop_req (head_step (script (hass w))))"
  "attr_is_closing (suspend d w) = (attr_is_closing w \<and> \<not> stop_req (head_step (script (hass w))))"
  "attr_current_cover_position (suspend d w) = attr_current_cover_position w"
  "unique_id (suspend d w) = unique_id w"
  "store (suspend d w) = store w"
  "opening_time (suspend d w) = opening_time w"
  "closing_time (suspend d w) = closing_time w"
  "mqtt_command_topic (suspend d w) = mqtt_command_topic w"
  "mqtt_payload_open (suspend d w) = mqtt_payload_open w"
  "mqtt_payload_close (suspend d w) = mqtt_payload_close w"
  "mqtt_payload_stop (suspend d w) = mqtt_payload_stop w"
  by (simp_all add: suspend_def Let_def)

lemma hass_write_state [simp]:
  "clock (hass (async_write_ha_state w)) = clock (hass w)"
  "script (hass (async_write_ha_state w)) = script (hass w)"
  "storage (hass (async_write_ha_state w)) = storage (hass w)"
  "trace (hass (async_write_ha_state w)) = trace (hass w) @
     [Write_state (attr_current_cover_position w) (attr_is_opening w) (attr_is_closing w)]"
  by (simp_all add: async_write_ha_state_def)

lemma cover_write_state [simp]:
  "attr_is_opening (async_write_ha_state w) = attr_is_opening w"
  "attr_is_closing (async_write_ha_state w) = attr_is_closing w"
  "attr_current_cover_position (async_write_ha_state w) = attr_current_cover_position w"
  "unique_id (async_write_ha_state w) = unique_id w"
  "store (async_write_ha_state w) = store w"
  "opening_time (async_write_ha_state w) = opening_time w"
  "closing_time (async_write_ha_state w) = closing_time w"
  "mqtt_command_topic (async_write_ha_state w) = mqtt_command_topic w"
  "mqtt_payload_open (async_write_ha_state w) = mqtt_payload_open w"
  "mqtt_payload_close (async_write_ha_state w) = mqtt_payload_close w"
  "mqtt_payload_stop (async_write_ha_state w) = mqtt_payload_stop w"
  by (simp_all add: async_write_ha_state_def)

subsection \<open>Publishing\<close>

lemma snd_publish:
  "snd (priv_async_publish p w) =
     (if mqtt (head_step (script (hass w))) = Loaded \<and> raises (head_step (script (hass w)))
      then Some CollaboratorError else None)"
  by (simp add: priv_async_publish_def Let_def split: mqtt_status.splits)

lemma hass_publish [simp]:
  "clock (hass (fst (priv_async_publish p w))) =
     clock (hass w) + max 0 (dur (head_step (script (hass w))))"
  "script (hass (fst (priv_async_publish p w))) = tl (script (hass w))"
  "storage (hass (fst (priv_async_publish p w))) = storage (hass w)"
  by (simp_all add: priv_async_publish_def Let_def split: mqtt_status.splits)

lemma trace_publish:
  "trace (hass (fst (priv_async_publish p w))) =
     trace (hass w) @ Publish_call p #
       (case mqtt (head_step (script (hass w))) of
          Loaded \<Rightarrow> [Mqtt_publish (mqtt_command_topic w) p]
        | Not_loaded \<Rightarrow> []
        | No_entries \<Rightarrow> [Log_error])"
  by (simp add: priv_async_publish_def Let_def split: mqtt_status.splits)

lemma cover_publish [simp]:
  "attr_is_opening (fst (priv_async_publish p w)) =
     (attr_is_opening w \<and> \<not> stop_req (head_step (script (hass w))))"
  "attr_is_closing (fst (priv_async_publish p w)) =
     (attr_is_closing w \<and> \<not> stop_req (head_step (script (hass w))))"
  "attr_current_cover_position (fst (priv_async_publish p w)) = attr_current_cover_position w"
  "unique_id (fst (priv_async_publish p w)) = unique_id w"
  "store (fst (priv_async_publish p w)) = store w"
  "opening_time (fst (priv_async_publish p w)) = opening_time w"
  "closing_time (fst (priv_async_publish p w)) = closing_time w"
  "mqtt_command_topic (fst (priv_async_publish p w)) = mqtt_command_topic w"
  "mqtt_payload_open (fst (priv_async_publish p w)) = mqtt_payload_open w"
  "mqtt_payload_close (fst (priv_async_publish p w)) = mqtt_payload_close w"
  "mqtt_payload_stop (fst (priv_async_publish p w)) = mqtt_payload_stop w"
  by (simp_all add: priv_async_publish_def Let_def split: mqtt_status.splits)

subsection \<open>Sleeping\<close>

lemma snd_sleep:
  "snd (sleep d w) = (if raises (head_step (script (hass w))) then Some CollaboratorError else None)"
  by (simp add: sleep_def Let_def)

lemma hass_sleep [simp]:
  "clock (hass (fst (sleep d w))) = clock (hass w) + max d (dur (head_step (script (hass w))))"
  "script (hass (fst (sleep d w))) = tl (script (hass w))"
  "storage (hass (fst (sleep d w))) = storage (hass w)"
  "trace (hass (fst (sleep d w))) = trace (hass w) @ [Sleep d]"
  by (simp_all add: sleep_def Let_def)

lemma cover_sleep [simp]:
  "attr_is_opening (fst (sleep d w)) =
     (attr_is_opening w \<and> \<not> stop_req (head_step (script (hass w))))"
  "attr_is_closing (fst (sleep d w)) =
     (attr_is_closing w \<and> \<not> stop_req (head_step (script (hass w))))"
  "attr_current_cover_position (fst (sleep d w)) = attr_current_cover_position w"
  "unique_id (fst (sleep d w)) = unique_id w"
  "store (fst (sleep d w)) = store w"
  "opening_time (fst (sleep d w)) = opening_time w"
  "closing_time (fst (sleep d w)) = closing_time w"
  "mqtt_command_topic (fst (sleep d w)) = mqtt_command_topic w"
  "mqtt_payload_open (fst (sleep d w)) = mqtt_payload_open w"
  "mqtt_payload_close (fst (sleep d w)) = mqtt_payload_close w"
  "mqtt_payload_stop (fst (sleep d w)) = mqtt_payload_stop w"
  by (simp_all add: sleep_def Let_def)

subsection \<open>Saving\<close>

lemma snd_save:
  "snd (async_save d w) =
     (case store w of None \<Rightarrow> Some AttributeError
      | Some key \<Rightarrow> if raises (head_step (script (hass w))) then Some CollaboratorError else None)"
  by (simp add: async_save_def Let_def split: option.splits)

lemma hass_save:
  "clock (hass (fst (async_save d w))) =
     (case store w of None \<Rightarrow> clock (hass w)
      | Some key \<Rightarrow> clock (hass w) + max 0 (dur (head_step (script (hass w)))))"
  "script (hass (fst (async_save d w))) =
     (case store w of None \<Rightarrow> script (hass w) | Some key \<Rightarrow> tl (script (hass w)))"
  "storage (hass (fst (async_save d w))) =
     (case store w of None \<Rightarrow> storage (hass w)
      | Some key \<Rightarrow> if raises (head_step (script (hass w))) then storage (hass w)
                    else (storage (hass w))(key \<mapsto> d))"
  "trace (hass (fst (async_save d w))) =
     trace (hass w) @ (case store w of None \<Rightarrow> [] | Some key \<Rightarrow> [Save key d])"
  by (simp_all add: async_save_def Let_def split: option.splits)

lemma flags_save:
  "attr_is_opening (fst (async_save d w)) =
     (case store w of None \<Rightarrow> attr_is_opening w
      | Some key \<Rightarrow> attr_is_opening w \<and> \<not> stop_req (head_step (script (hass w))))"
  "attr_is_closing (fst (async_save d w)) =
     (case store w of None \<Rightarrow> attr_is_closing w
      | Some key \<Rightarrow> attr_is_closing w \<and> \<not> stop_req (head_step (script (hass w))))"
  by (simp_all add: async_save_def Let_def split: option.splits)

lemma cover_save [simp]:
  "attr_current_cover_position (fst (async_save d w)) = attr_current_cover_position w"
  "unique_id (fst (async_save d w)) = unique_id w"
  "store (fst (async_save d w)) = store w"
  "opening_time (fst (async_save d w)) = opening_time w"
  "closing_time (fst (async_save d w)) = closing_time w"
  "mqtt_command_topic (fst (async_save d w)) = mqtt_command_topic w"
  "mqtt_payload_open (fst (async_save d w)) = mqtt_payload_open w"
  "mqtt_payload_close (fst (async_save d w)) = mqtt_payload_close w"
  "mqtt_payload_stop (fst (async_save d w)) = mqtt_payload_stop w"
  by (simp_all add: async_save_def Let_def split: option.splits)

subsection \<open>Stop\<close>

lemma snd_stop:
  "snd (async_stop_cover w) =
     (if mqtt (head_step (script (hass w))) = Loaded \<and> raises (head_step (script (hass w)))
      then Some CollaboratorError else None)"
  by (simp add: async_stop_cover_def fst_and_then snd_and_then snd_publish)

lemma cover_stop [simp]:
  "attr_is_opening (fst (async_stop_cover w)) = False"
  "attr_is_closing (fst (async_stop_cover w)) = False"
  "attr_current_cover_position (fst (async_stop_cover w)) = attr_current_cover_position w"
  "unique_id (fst (async_stop_cover w)) = unique_id w"
  "store (fst (async_stop_cover w)) = store w"
  "opening_time (fst (async_stop_cover w)) = opening_time w"
  "closing_time (fst (async_stop_cover w)) = closing_time w"
  "mqtt_command_topic (fst (async_stop_cover w)) = mqtt_command_topic w"
  "mqtt_payload_open (fst (async_stop_cover w)) = mqtt_payload_open w"
  "mqtt_payload_close (fst (async_stop_cover w)) = mqtt_payload_close w"
  "mqtt_payload_stop (fst (async_stop_cover w)) = mqtt_payload_stop w"
  by (simp_all add: async_stop_cover_def fst_and_then snd_and_then snd_publish)

lemma hass_stop [simp]:
  "clock (hass (fst (async_stop_cover w))) =
     clock (hass w) + max 0 (dur (head_step (script (hass w))))"
  "script (hass (fst (async_stop_cover w))) = tl (script (hass w))"
  "storage (hass (fst (async_stop_cover w))) = storage (hass w)"
  by (simp_all add: async_stop_cover_def fst_and_then snd_and_then snd_publish)

lemma trace_stop:
  "trace (hass (fst (async_stop_cover w))) =
     trace (hass w) @ Publish_call (mqtt_payload_stop w) #
       (case mqtt (head_step (script (hass w))) of
          Loaded \<Rightarrow> Mqtt_publish (mqtt_command_topic w) (mqtt_payload_stop w) #
            (if raises (head_step (script (hass w))) then []
             else [Write_state (attr_current_cover_position w) False False])
        | Not_loaded \<Rightarrow> [Write_state (attr_current_cover_position w) False False]
        | No_entries \<Rightarrow> [Log_error, Write_state (attr_current_cover_position w) False False])"
  by (simp add: async_stop_cover_def fst_and_then snd_and_then snd_publish trace_publish
      split: mqtt_status.splits)

subsection \<open>Scripts\<close>

lemma list_all_tl: "list_all P xs \<Longrightarrow> list_all P (tl xs)"
  by (cases xs) simp_all

lemma unfailing_head: "list_all unfailing xs \<Longrightarrow> \<not> raises (head_step xs)"
  by (cases xs) (simp_all add: head_step_def idle_step_def unfailing_def)

lemma nominal_head: "list_all nominal xs \<Longrightarrow> mqtt (head_step xs) = Loaded \<and> \<not> raises (head_step xs)"
  by (cases xs) (simp_all add: head_step_def idle_step_def nominal_def)


lemma nominal_unfailing: "list_all nominal xs \<Longrightarrow> list_all unfailing xs"
  by (induction xs) (simp_all add: nominal_def unfailing_def)


subsection \<open>Projections of the trace after one call\<close>

lemma projections_publish [simp]:
  "publish_calls (trace (hass (fst (priv_async_publish p w)))) = publish_calls (trace (hass w)) @ [p]"
  "published (trace (hass (fst (priv_async_publish p w)))) =
     published (trace (hass w)) @ (if mqtt (head_step (script (hass w))) = Loaded then [p] else [])"
  "saved (trace (hass (fst (priv_async_publish p w)))) = saved (trace (hass w))"
  "slept (trace (hass (fst (priv_async_publish p w)))) = slept (trace (hass w))"
  "readings (trace (hass (fst (priv_async_publish p w)))) = readings (trace (hass w))"
  by (simp_all add: trace_publish split: mqtt_status.splits)

lemma projections_stop [simp]:
  "publish_calls (trace (hass (fst (async_stop_cover w)))) =
     publish_calls (trace (hass w)) @ [mqtt_payload_stop w]"
  "published (trace (hass (fst (async_stop_cover w)))) =
     published (trace (hass w)) @
       (if mqtt (head_step (script (hass w))) = Loaded then [mqtt_payload_stop w] else [])"
  "saved (trace (hass (fst (async_stop_cover w)))) = saved (trace (hass w))"
  "slept (trace (hass (fst (async_stop_cover w)))) = slept (trace (hass w))"
  "readings (trace (hass (fst (async_stop_cover w)))) = readings (trace (hass w))"
  by (simp_all add: trace_stop split: mqtt_status.splits)

lemma projections_sleep [simp]:
  "publish_calls (trace (hass (fst (sleep d w)))) = publish_calls (trace (hass w))"
  "published (trace (hass (fst (sleep d w)))) = published (trace (hass w))"
  "saved (trace (hass (fst (sleep d w)))) = saved (trace (hass w))"
  "slept (trace (hass (fst (sleep d w)))) = slept (trace (hass w)) @ [d]"
  "readings (trace (hass (fst (sleep d w)))) = readings (trace (hass w))"
  by simp_all

lemma projections_save [simp]:
  "publish_calls (trace (hass (fst (async_save d w)))) = publish_calls (trace (hass w))"
  "published (trace (hass (fst (async_save d w)))) = published (trace (hass w))"
  "saved (trace (hass (fst (async_save d w)))) =
     saved (trace (hass w)) @ (case store w of None \<Rightarrow> [] | Some key \<Rightarrow> [d])"
  "slept (trace (hass (fst (async_save d w)))) = slept (trace (hass w))"
  "readings (trace (hass (fst (async_save d w)))) = readings (trace (hass w))"
  by (simp_all add: hass_save split: option.splits)

lemma projections_write_state [simp]:
  "publish_calls (trace (hass (async_write_ha_state w))) = publish_calls (trace (hass w))"
  "published (trace (hass (async_write_ha_state w))) = published (trace (hass w))"
  "saved (trace (hass (async_write_ha_state w))) = saved (trace (hass w))"
  "slept (trace (hass (async_write_ha_state w))) = slept (trace (hass w))"
  "readings (trace (hass (async_write_ha_state w))) = readings (trace (hass w))"
  by simp_all

lemma script_save [simp]:
  "list_all P (script (hass w)) \<Longrightarrow> list_all P (script (hass (fst (async_save d w))))"
  by (simp add: async_save_def Let_def list_all_tl split: option.splits)

subsection \<open>The loop, one pass at a time\<close>

lemma snd_loop_update:
  "snd (loop_update l now w) = (if movement_time l = 0 then Some ZeroDivisionError else None)"
  by (simp add: loop_update_def Let_def)

lemma hass_loop_update [simp]:
  "clock (hass (fst (loop_update l now w))) = clock (hass w)"
  "script (hass (fst (loop_update l now w))) = script (hass w)"
  "storage (hass (fst (loop_update l now w))) = storage (hass w)"
  by (simp_all add: loop_update_def Let_def)

lemma cover_loop_update [simp]:
  "attr_is_opening (fst (loop_update l now w)) = attr_is_opening w"
  "attr_is_closing (fst (loop_update l now w)) = attr_is_closing w"
  "unique_id (fst (loop_update l now w)) = unique_id w"
  "store (fst (loop_update l now w)) = store w"
  "opening_time (fst (loop_update l now w)) = opening_time w"
  "closing_time (fst (loop_update l now w)) = closing_time w"
  "mqtt_command_topic (fst (loop_update l now w)) = mqtt_command_topic w"
  "mqtt_payload_open (fst (loop_update l now w)) = mqtt_payload_open w"
  "mqtt_payload_close (fst (loop_update l now w)) = mqtt_payload_close w"
  "mqtt_payload_stop (fst (loop_update l now w)) = mqtt_payload_stop w"
  by (simp_all add: loop_update_def Let_def)

lemma position_loop_update:
  "attr_current_cover_position (fst (loop_update l now w)) =
     (if movement_time l = 0 then attr_current_cover_position w else Some (estimate l now))"
  by (simp add: loop_update_def Let_def estimate_def MAX_PERCENT_def)

lemma trace_loop_update:
  "trace (hass (fst (loop_update l now w))) =
     trace (hass w) @
       (if movement_time l = 0 then []
        else [Write_state (Some (estimate l now)) (attr_is_opening w) (attr_is_closing w)])"
  by (simp add: loop_update_def Let_def estimate_def MAX_PERCENT_def)

lemma sampling_loop_unfold:
  "sampling_loop l w =
     (case loop_condition l (clock (hass w)) (emit (Monotonic (clock (hass w))) w) of
        Inl e \<Rightarrow> (emit (Monotonic (clock (hass w))) w, Some e)
      | Inr b \<Rightarrow>
          if \<not> b then (emit (Monotonic (clock (hass w))) w, None)
          else if snd (sleep CHECK_INTERVAL (emit (Monotonic (clock (hass w))) w)) \<noteq> None
          then sleep CHECK_INTERVAL (emit (Monotonic (clock (hass w))) w)
          else if movement_time l = 0
          then (fst (sleep CHECK_INTERVAL (emit (Monotonic (clock (hass w))) w)),
                Some ZeroDivisionError)
          else sampling_loop l (loop_pass l w))"
  apply (subst sampling_loop.simps)
  apply (cases "sleep CHECK_INTERVAL (emit (Monotonic (clock (hass w))) w)")
  apply (cases "loop_update l (clock (hass w))
                  (fst (sleep CHECK_INTERVAL (emit (Monotonic (clock (hass w))) w)))")
  apply (auto simp: Let_def loop_pass_def split: sum.splits bool.splits option.splits)
     apply (auto simp: loop_update_def Let_def split: if_splits)
  done

lemma sampling_loop_induct [consumes 0, case_names pass]:
  assumes "\<And>l w. (loop_condition l (clock (hass w)) (emit (Monotonic (clock (hass w))) w) = Inr True
                 \<Longrightarrow> snd (sleep CHECK_INTERVAL (emit (Monotonic (clock (hass w))) w)) = None
                 \<Longrightarrow> movement_time l \<noteq> 0
                 \<Longrightarrow> P l (loop_pass l w)) \<Longrightarrow> P l w"
  shows "P l w"
proof (induction l w rule: sampling_loop.induct)
  case (1 l w)
  show ?case
  proof (rule assms)
    assume c: "loop_condition l (clock (hass w)) (emit (Monotonic (clock (hass w))) w) = Inr True"
      and s: "snd (sleep CHECK_INTERVAL (emit (Monotonic (clock (hass w))) w)) = None"
      and m: "movement_time l \<noteq> 0"
    have u: "snd (loop_update l (clock (hass w))
        (fst (sleep CHECK_INTERVAL (emit (Monotonic (clock (hass w))) w)))) = None"
      using m by (simp add: snd_loop_update)
    show "P l (loop_pass l w)"
      unfolding loop_pass_def
      by (rule 1[OF refl refl c refl prod.collapse s prod.collapse u])
  qed
qed

lemma hass_loop_pass [simp]:
  "clock (hass (loop_pass l w)) =
     clock (hass w) + max CHECK_INTERVAL (dur (head_step (script (hass w))))"
  "script (hass (loop_pass l w)) = tl (script (hass w))"
  "storage (hass (loop_pass l w)) = storage (hass w)"
  by (simp_all add: loop_pass_def)

lemma cover_loop_pass [simp]:
  "attr_is_opening (loop_pass l w) =
     (attr_is_opening w \<and> \<not> stop_req (head_step (script (hass w))))"
  "attr_is_closing (loop_pass l w) =
     (attr_is_closing w \<and> \<not> stop_req (head_step (script (hass w))))"
  "unique_id (loop_pass l w) = unique_id w"
  "store (loop_pass l w) = store w"
  "opening_time (loop_pass l w) = opening_time w"
  "closing_time (loop_pass l w) = closing_time w"
  "mqtt_command_topic (loop_pass l w) = mqtt_command_topic w"
  "mqtt_payload_open (loop_pass l w) = mqtt_payload_open w"
  "mqtt_payload_close (loop_pass l w) = mqtt_payload_close w"
  "mqtt_payload_stop (loop_pass l w) = mqtt_payload_stop w"
  by (simp_all add: loop_pass_def)

lemma position_loop_pass:
  "movement_time l \<noteq> 0 \<Longrightarrow>
   attr_current_cover_position (loop_pass l w) = Some (estimate l (clock (hass w)))"
  by (simp add: loop_pass_def position_loop_update)

lemma trace_loop_pass:
  "movement_time l \<noteq> 0 \<Longrightarrow>
   trace (hass (loop_pass l w)) =
     trace (hass w) @
       [Monotonic (clock (hass w)), Sleep CHECK_INTERVAL,
        Write_state (Some (estimate l (clock (hass w))))
          (attr_is_opening w \<and> \<not> stop_req (head_step (script (hass w))))
          (attr_is_closing w \<and> \<not> stop_req (head_step (script (hass w))))]"
  by (simp add: loop_pass_def trace_loop_update)

text \<open>The exits of the loop.\<close>

lemma sampling_loop_exit:
  "loop_condition l (clock (hass w)) (emit (Monotonic (clock (hass w))) w) = Inr False \<Longrightarrow>
   sampling_loop l w = (emit (Monotonic (clock (hass w))) w, None)"
  by (subst sampling_loop_unfold) simp

lemma loop_condition_emit [simp]:
  "loop_condition l now (emit e w) = loop_condition l now w"
  by (simp add: loop_condition_def split: option.splits)


subsection \<open>What the loop keeps\<close>

lemma fst_sampling_loop_cases:
  "fst (sampling_loop l w) = emit (Monotonic (clock (hass w))) w
   \<or> fst (sampling_loop l w) = fst (sleep CHECK_INTERVAL (emit (Monotonic (clock (hass w))) w))
   \<or> (loop_condition l (clock (hass w)) w = Inr True \<and> movement_time l \<noteq> 0
      \<and> snd (sleep CHECK_INTERVAL (emit (Monotonic (clock (hass w))) w)) = None
      \<and> fst (sampling_loop l w) = fst (sampling_loop l (loop_pass l w)))"
  by (subst (1 2 3) sampling_loop_unfold) (auto split: sum.splits)

lemma sampling_loop_preserves:
  assumes start: "I w"
    and reading: "\<And>w. I w \<Longrightarrow> I (emit (Monotonic (clock (hass w))) w)"
    and sleeping: "\<And>w. I w \<Longrightarrow> I (fst (sleep CHECK_INTERVAL w))"
    and step: "\<And>w. I w \<Longrightarrow> loop_condition l (clock (hass w)) w = Inr True \<Longrightarrow>
                 movement_time l \<noteq> 0 \<Longrightarrow> I (loop_pass l w)"
  shows "I (fst (sampling_loop l w))"
proof -
  have "l' = l \<longrightarrow> I w \<longrightarrow> I (fst (sampling_loop l' w))" for l'
  proof (induction l' w rule: sampling_loop_induct)
    case (pass l' w)
    show ?case
    proof (intro impI)
      assume same: "l' = l" and inv: "I w"
      from fst_sampling_loop_cases[of l w]
      consider (stop) "fst (sampling_loop l w) = emit (Monotonic (clock (hass w))) w"
        | (raise) "fst (sampling_loop l w) =
                     fst (sleep CHECK_INTERVAL (emit (Monotonic (clock (hass w))) w))"
        | (again) "loop_condition l (clock (hass w)) w = Inr True" "movement_time l \<noteq> 0"
            "snd (sleep CHECK_INTERVAL (emit (Monotonic (clock (hass w))) w)) = None"
            "fst (sampling_loop l w) = fst (sampling_loop l (loop_pass l w))"
        by auto
      then show "I (fst (sampling_loop l' w))"
      proof cases
        case stop
        then show ?thesis using same inv reading by simp
      next
        case raise
        then show ?thesis using same inv reading sleeping by simp
      next
        case again
        have "I (loop_pass l w)"
          using inv again step by simp
        then show ?thesis
          using pass.IH same again by simp
      qed
    qed
  qed
  with start show ?thesis by simp
qed

lemma sampling_loop_frame:
  "unique_id (fst (sampling_loop l w)) = unique_id w
   \<and> store (fst (sampling_loop l w)) = store w
   \<and> storage (hass (fst (sampling_loop l w))) = storage (hass w)
   \<and> opening_time (fst (sampling_loop l w)) = opening_time w
   \<and> closing_time (fst (sampling_loop l w)) = closing_time w
   \<and> mqtt_command_topic (fst (sampling_loop l w)) = mqtt_command_topic w
   \<and> mqtt_payload_open (fst (sampling_loop l w)) = mqtt_payload_open w
   \<and> mqtt_payload_close (fst (sampling_loop l w)) = mqtt_payload_close w
   \<and> mqtt_payload_stop (fst (sampling_loop l w)) = mqtt_payload_stop w"
  by (rule sampling_loop_preserves) simp_all

lemma sampling_loop_script:
  "list_all P (script (hass w)) \<Longrightarrow> list_all P (script (hass (fst (sampling_loop l w))))"
  by (rule sampling_loop_preserves) (simp_all add: list_all_tl)

lemma sampling_loop_projections:
  "publish_calls (trace (hass (fst (sampling_loop l w)))) = publish_calls (trace (hass w))
   \<and> published (trace (hass (fst (sampling_loop l w)))) = published (trace (hass w))
   \<and> saved (trace (hass (fst (sampling_loop l w)))) = saved (trace (hass w))"
  by (rule sampling_loop_preserves) (simp_all add: trace_loop_pass)

lemma sampling_loop_no_error:
  "list_all unfailing (script (hass w)) \<Longrightarrow> attr_current_cover_position w \<noteq> None \<Longrightarrow>
   start_moving_time l \<le> clock (hass w) \<Longrightarrow>
   snd (sampling_loop l w) = None \<and> attr_current_cover_position (fst (sampling_loop l w)) \<noteq> None"
proof (induction l w rule: sampling_loop_induct)
  case (pass l w)
  let ?w0 = "emit (Monotonic (clock (hass w))) w"
  from pass.prems obtain p where p: "attr_current_cover_position w = Some p" by auto
  from p have "\<exists>b. loop_condition l (clock (hass w)) ?w0 = Inr b"
    by (cases "clock (hass w) < start_moving_time l + movement_time l")
       (auto simp: loop_condition_def intro: exI[of _ False])
  then obtain b where b: "loop_condition l (clock (hass w)) ?w0 = Inr b" ..
  show ?case
  proof (cases b)
    case False
    with b p show ?thesis by (simp add: sampling_loop_exit)
  next
    case True
    with b have before: "clock (hass w) < start_moving_time l + movement_time l"
      by (auto dest: loop_condition_time)
    with pass.prems have budget: "movement_time l \<noteq> 0" by auto
    have awake: "snd (sleep CHECK_INTERVAL ?w0) = None"
      using pass.prems by (simp add: snd_sleep unfailing_head)
    have "snd (sampling_loop l (loop_pass l w)) = None
        \<and> attr_current_cover_position (fst (sampling_loop l (loop_pass l w))) \<noteq> None"
      using True b awake budget pass.prems
      by (intro pass.IH)
         (simp_all add: list_all_tl position_loop_pass max_def CHECK_INTERVAL_def)
    moreover have "sampling_loop l w = sampling_loop l (loop_pass l w)"
      using True b awake budget by (subst sampling_loop_unfold) simp
    ultimately show ?thesis by simp
  qed
qed

subsection \<open>The locked section and the whole call\<close>

lemma snd_try_finally:
  "snd (try_finally r f) = (case snd (f (fst r)) of None \<Rightarrow> snd r | Some e \<Rightarrow> Some e)"
  by (cases r; cases "f (fst r)"; cases "snd (f (fst r))") (auto simp: try_finally_def)

lemma requested_target_range:
  "0 \<le> requested_target kw \<and> requested_target kw \<le> 100"
  by (simp add: requested_target_def MIN_POSITION_def MAX_POSITION_def)

lemma requested_target_in_range:
  "0 \<le> p \<Longrightarrow> p \<le> 100 \<Longrightarrow> requested_target (Some p) = p"
  by (simp add: requested_target_def MIN_POSITION_def MAX_POSITION_def)

lemma cover_sampling_loop [simp]:
  "unique_id (fst (sampling_loop l w)) = unique_id w"
  "store (fst (sampling_loop l w)) = store w"
  "storage (hass (fst (sampling_loop l w))) = storage (hass w)"
  "opening_time (fst (sampling_loop l w)) = opening_time w"
  "closing_time (fst (sampling_loop l w)) = closing_time w"
  "mqtt_command_topic (fst (sampling_loop l w)) = mqtt_command_topic w"
  "mqtt_payload_open (fst (sampling_loop l w)) = mqtt_payload_open w"
  "mqtt_payload_close (fst (sampling_loop l w)) = mqtt_payload_close w"
  "mqtt_payload_stop (fst (sampling_loop l w)) = mqtt_payload_stop w"
  using sampling_loop_frame[of l w] by simp_all

lemma projections_sampling_loop [simp]:
  "publish_calls (trace (hass (fst (sampling_loop l w)))) = publish_calls (trace (hass w))"
  "published (trace (hass (fst (sampling_loop l w)))) = published (trace (hass w))"
  "saved (trace (hass (fst (sampling_loop l w)))) = saved (trace (hass w))"
  using sampling_loop_projections[of l w] by simp_all

lemma cover_locked_section [simp]:
  "unique_id (fst (locked_section kw w)) = unique_id w"
  "store (fst (locked_section kw w)) = store w"
  "opening_time (fst (locked_section kw w)) = opening_time w"
  "closing_time (fst (locked_section kw w)) = closing_time w"
  "mqtt_command_topic (fst (locked_section kw w)) = mqtt_command_topic w"
  "mqtt_payload_open (fst (locked_section kw w)) = mqtt_payload_open w"
  "mqtt_payload_close (fst (locked_section kw w)) = mqtt_payload_close w"
  "mqtt_payload_stop (fst (locked_section kw w)) = mqtt_payload_stop w"
  by (simp_all add: locked_section_def Let_def fst_and_then split: option.splits)


lemma set_position_ends_in_stop:
  "\<exists>x. fst (async_set_cover_position kw w) = fst (async_stop_cover x)
     \<and> mqtt_payload_stop x = mqtt_payload_stop w"
proof (cases "snd (async_stop_cover w)")
  case None
  then have "fst (async_set_cover_position kw w) =
      fst (async_stop_cover (fst (locked_section kw (fst (async_stop_cover w)))))"
    by (simp add: async_set_cover_position_def fst_and_then fst_try_finally)
  then show ?thesis by (intro exI[of _ "fst (locked_section kw (fst (async_stop_cover w)))"]) simp
next
  case (Some e)
  then have "fst (async_set_cover_position kw w) = fst (async_stop_cover w)"
    by (simp add: async_set_cover_position_def fst_and_then)
  then show ?thesis by (intro exI[of _ w]) simp
qed

lemma locked_section_saves:
  assumes quiet: "list_all unfailing (script (hass w))"
    and attached: "store w = Some key"
    and pos: "attr_current_cover_position w = Some p0"
  shows "snd (locked_section kw w) = None
    \<and> storage (hass (fst (locked_section kw w))) key =
        Some [(unique_id w, attr_current_cover_position (fst (locked_section kw w)))]
    \<and> list_all unfailing (script (hass (fst (locked_section kw w))))"
proof -
  note steps = locked_section_def Let_def fst_and_then snd_and_then snd_publish snd_save
    hass_save unfailing_head list_all_tl sampling_loop_no_error sampling_loop_script
  show ?thesis
  proof (cases "of_int (requested_target kw) > p0")
    case True
    with assms show ?thesis by (simp add: steps)
  next
    case False
    with assms show ?thesis by (simp add: steps)
  qed
qed

lemma saved_locked_section:
  "\<exists>docs. saved (trace (hass (fst (locked_section kw w)))) = saved (trace (hass w)) @ docs
     \<and> list_all (\<lambda>d. map fst d = [unique_id w]) docs"
  by (auto simp: locked_section_def Let_def fst_and_then split: option.splits)

subsection \<open>Positions within the limits\<close>

lemma estimate_range:
  assumes initial: "0 \<le> initial_position l" "initial_position l \<le> 100"
    and target: "0 \<le> target_position l" "target_position l \<le> 100"
    and started: "start_moving_time l \<le> now"
    and before: "now < start_moving_time l + movement_time l"
  shows "0 \<le> estimate l now \<and> estimate l now \<le> 100"
proof -
  have budget: "0 < movement_time l"
    using started before by simp
  have "0 \<le> (now - start_moving_time l) / movement_time l"
    using started budget by simp
  then have progress: "0 \<le> (now - start_moving_time l) / movement_time l * 100"
    by (intro mult_nonneg_nonneg) simp_all
  have t: "(0::rat) \<le> of_int (target_position l)" "of_int (target_position l) \<le> (100::rat)"
    using target by simp_all
  show ?thesis
    using progress initial t by (simp add: estimate_def min_def max_def)
qed

lemma within_limits_emit:
  "within_limits w \<Longrightarrow> in_range_event e \<Longrightarrow> within_limits (emit e w)"
  by (simp add: within_limits_def)

lemma within_limits_sampling_loop:
  assumes inv: "within_limits w"
    and initial: "0 \<le> initial_position l" "initial_position l \<le> 100"
    and target: "0 \<le> target_position l" "target_position l \<le> 100"
    and started: "start_moving_time l \<le> clock (hass w)"
  shows "within_limits (fst (sampling_loop l w))"
proof -
  have "within_limits (fst (sampling_loop l w))
      \<and> start_moving_time l \<le> clock (hass (fst (sampling_loop l w)))"
  proof (rule sampling_loop_preserves
      [where I = "\<lambda>w. within_limits w \<and> start_moving_time l \<le> clock (hass w)"])
    show "within_limits w \<and> start_moving_time l \<le> clock (hass w)"
      using inv started by simp
  next
    fix w assume "within_limits w \<and> start_moving_time l \<le> clock (hass w)"
    then show "within_limits (emit (Monotonic (clock (hass w))) w)
        \<and> start_moving_time l \<le> clock (hass (emit (Monotonic (clock (hass w))) w))"
      by (simp add: within_limits_def)
  next
    fix w assume "within_limits w \<and> start_moving_time l \<le> clock (hass w)"
    then show "within_limits (fst (sleep CHECK_INTERVAL w))
        \<and> start_moving_time l \<le> clock (hass (fst (sleep CHECK_INTERVAL w)))"
      by (simp add: within_limits_def max_def CHECK_INTERVAL_def)
  next
    fix w
    assume i: "within_limits w \<and> start_moving_time l \<le> clock (hass w)"
      and c: "loop_condition l (clock (hass w)) w = Inr True"
      and m: "movement_time l \<noteq> 0"
    have "0 \<le> estimate l (clock (hass w)) \<and> estimate l (clock (hass w)) \<le> 100"
      using initial target i loop_condition_time[OF c] by (intro estimate_range) simp_all
    then show "within_limits (loop_pass l w)
        \<and> start_moving_time l \<le> clock (hass (loop_pass l w))"
      using i m
      by (simp add: within_limits_def position_loop_pass trace_loop_pass good_position_def
          MIN_POSITION_def MAX_POSITION_def max_def CHECK_INTERVAL_def)
  qed
  then show ?thesis ..
qed

lemma within_limits_stop:
  "within_limits w \<Longrightarrow> within_limits (fst (async_stop_cover w))"
  by (simp add: within_limits_def trace_stop split: mqtt_status.splits)

lemma within_limits_publish:
  "within_limits w \<Longrightarrow> within_limits (fst (priv_async_publish p w))"
  by (simp add: within_limits_def trace_publish split: mqtt_status.splits)

lemma within_limits_sleep:
  "within_limits w \<Longrightarrow> within_limits (fst (sleep d w))"
  by (simp add: within_limits_def)

lemma within_limits_flags [simp]:
  "within_limits (w\<lparr>attr_is_opening := a\<rparr>) = within_limits w"
  "within_limits (w\<lparr>attr_is_closing := b\<rparr>) = within_limits w"
  by (simp_all add: within_limits_def)

lemma within_limits_save:
  "within_limits w \<Longrightarrow>
   within_limits (fst (async_save [(k, attr_current_cover_position w)] w))"
  by (simp add: within_limits_def hass_save split: option.splits)

lemma within_limits_locked_section:
  assumes inv: "within_limits w"
  shows "within_limits (fst (locked_section kw w))"
proof -
  from inv obtain p0 where p0: "attr_current_cover_position w = Some p0"
    and range: "0 \<le> p0" "p0 \<le> 100"
    by (auto simp: within_limits_def good_position_def MIN_POSITION_def MAX_POSITION_def
        split: option.splits)
  let ?opening = "of_int (requested_target kw) > p0"
  let ?l = "\<lparr> target_position = requested_target kw, initial_position = p0,
              start_moving_time = clock (hass w), is_opening_direction = ?opening,
              movement_time = (if ?opening then opening_time w else closing_time w) \<rparr>"
  let ?w1 = "(emit (Monotonic (clock (hass w))) w)
               \<lparr>attr_is_opening := ?opening, attr_is_closing := \<not> ?opening\<rparr>"
  let ?w2 = "fst (priv_async_publish
               (if ?opening then mqtt_payload_open w else mqtt_payload_close w) ?w1)"
  let ?w3 = "fst (sampling_loop ?l ?w2)"
  have w1: "within_limits ?w1"
    using inv by (simp add: within_limits_emit)
  have w2: "within_limits ?w2"
    using w1 by (rule within_limits_publish)
  have w3: "within_limits ?w3"
    using w2 range requested_target_range[of kw]
    by (intro within_limits_sampling_loop) (simp_all add: max_def)
  have w4: "within_limits (fst (async_save [(unique_id ?w3, attr_current_cover_position ?w3)] ?w3))"
    using w3 by (rule within_limits_save)
  have "fst (locked_section kw w) = ?w2
      \<or> fst (locked_section kw w) = ?w3
      \<or> fst (locked_section kw w) =
          fst (async_save [(unique_id ?w3, attr_current_cover_position ?w3)] ?w3)"
    using p0 by (cases ?opening) (simp_all add: locked_section_def Let_def fst_and_then
        split: option.splits)
  with w2 w3 w4 show ?thesis by auto
qed

lemma within_limits_set_position:
  "within_limits w \<Longrightarrow> within_limits (fst (async_set_cover_position kw w))"
  by (cases "snd (async_stop_cover w)")
     (simp_all add: async_set_cover_position_def fst_and_then fst_try_finally
        within_limits_stop within_limits_locked_section)

lemma within_limits_calibrate:
  assumes inv: "within_limits w"
  shows "within_limits (fst (async_calibrate w))"
proof -
  have step: "within_limits (fst (and_then r f))"
    if "within_limits (fst r)" "\<And>x. within_limits x \<Longrightarrow> within_limits (fst (f x))" for r f
    using that by (simp add: fst_and_then split: option.splits)
  have last: "within_limits (fst (and_then
        (async_save [(unique_id x, Some 0)] (x\<lparr>attr_current_cover_position := Some 0\<rparr>))
        (\<lambda>w. (async_write_ha_state w, None))))"
    if "within_limits x" for x
    using that
    by (simp add: fst_and_then within_limits_def hass_save good_position_def
        MIN_POSITION_def MAX_POSITION_def split: option.splits)
  show ?thesis
    unfolding async_calibrate_def
    by (intro step within_limits_publish within_limits_sleep last) (simp_all add: inv)
qed

lemma flags_calibrate:
  "\<not> attr_is_opening (fst (async_calibrate w)) \<and> \<not> attr_is_closing (fst (async_calibrate w))"
  by (simp add: async_calibrate_def fst_and_then flags_save split: option.splits)

lemma flags_set_position:
  "\<not> attr_is_opening (fst (async_set_cover_position kw w))
   \<and> \<not> attr_is_closing (fst (async_set_cover_position kw w))"
  using set_position_ends_in_stop[of kw w] by auto

lemma within_limits_operation:
  "within_limits w \<Longrightarrow> within_limits (fst (run_operation x w))"
  by (cases x) (simp_all add: async_open_cover_def async_close_cover_def
      within_limits_set_position within_limits_stop within_limits_calibrate)

lemma flags_operation:
  "\<not> attr_is_opening (fst (run_operation x w)) \<and> \<not> attr_is_closing (fst (run_operation x w))"
  by (cases x) (simp_all add: async_open_cover_def async_close_cover_def
      flags_set_position flags_calibrate)

lemma within_limits_operations:
  "within_limits w \<Longrightarrow> within_limits (run_operations xs w)"
  by (induction xs arbitrary: w) (simp_all add: within_limits_operation)

lemma flags_operations:
  "xs \<noteq> [] \<Longrightarrow>
   \<not> attr_is_opening (run_operations xs w) \<and> \<not> attr_is_closing (run_operations xs w)"
proof (induction xs arbitrary: w)
  case Nil
  then show ?case by simp
next
  case (Cons x xs)
  show ?case
  proof (cases xs)
    case Nil
    then show ?thesis using flags_operation[of x w] by simp
  next
    case (Cons y ys)
    then show ?thesis using Cons.IH[of "fst (run_operation x w)"] by simp
  qed
qed

subsection \<open>An uninterrupted run on time\<close>


subsection \<open>Concrete inputs\<close>

lemma example_cover_fields:
  "attr_is_opening example_cover = False"
  "attr_is_closing example_cover = False"
  "attr_current_cover_position example_cover = Some 0"
  "unique_id example_cover = ''blind''"
  "store example_cover = Some DOMAIN"
  "opening_time example_cover = 10"
  "closing_time example_cover = 10"
  "mqtt_command_topic example_cover = ''relay/cmd''"
  "mqtt_payload_open example_cover = ''OPEN''"
  "mqtt_payload_close example_cover = ''CLOSE''"
  "mqtt_payload_stop example_cover = ''STOP''"
  "clock (hass example_cover) = 5"
  "script (hass example_cover) = []"
  "trace (hass example_cover) = []"
  "storage (hass example_cover) = Map.empty"
  by (simp_all add: example_cover_def example_config_def example_hass_def init_def
      MILISECONDS_IN_SECOND_def)

text \<open>
  The model runs. With a travel of three tenths of a second the loop makes three
  passes, on the readings 5, 5.1 and 5.2 (the first 5 is the start), and leaves on
  the reading 5.3; each pass computes the position from the reading taken before its
  sleep, so the position left is two thirds of the way.
\<close>

lemma short_run:
  "attr_current_cover_position
     (fst (async_set_cover_position (Some 100) (example_cover\<lparr>opening_time := 3 / 10\<rparr>)))
     = Some (200 / 3)
   \<and> readings (trace (hass
       (fst (async_set_cover_position (Some 100) (example_cover\<lparr>opening_time := 3 / 10\<rparr>)))))
     = [5, 5, 51 / 10, 26 / 5, 53 / 10]"
  by code_simp

lemma nominal_idle [simp]: "nominal (head_step [])"
  by (simp add: nominal_def head_step_def idle_step_def)

section \<open>Stop\<close>

text \<open>
  Claim C9. Every call of \<^verbatim>\<open>async_stop_cover\<close>, in every state of the cover and
  whatever the collaborators do, leaves both flags false and the position as it was,
  and hands the stop payload to the publisher exactly once. When the call raises
  nothing, the last thing it does is announce the state, with both flags false. When
  MQTT is loaded and the publish does not raise, the call adds to the trace exactly
  the publish of the stop payload on the command topic, then the announcement.
\<close>

theorem stop_clears_flags_keeps_position:
  "\<not> attr_is_opening (fst (async_stop_cover w))
   \<and> \<not> attr_is_closing (fst (async_stop_cover w))
   \<and> attr_current_cover_position (fst (async_stop_cover w)) = attr_current_cover_position w
   \<and> publish_calls (trace (hass (fst (async_stop_cover w))))
       = publish_calls (trace (hass w)) @ [mqtt_payload_stop w]
   \<and> (snd (async_stop_cover w) = None \<longrightarrow>
        last (trace (hass (fst (async_stop_cover w))))
          = Write_state (attr_current_cover_position w) False False)
   \<and> (nominal (head_step (script (hass w))) \<longrightarrow>
        snd (async_stop_cover w) = None
        \<and> trace (hass (fst (async_stop_cover w)))
            = trace (hass w) @
              [Publish_call (mqtt_payload_stop w),
               Mqtt_publish (mqtt_command_topic w) (mqtt_payload_stop w),
               Write_state (attr_current_cover_position w) False False])"
  by (simp add: snd_stop trace_stop nominal_def split: mqtt_status.splits)

theorem stop_clears_flags_keeps_position_witness:
  "snd (async_stop_cover (example_cover\<lparr>attr_is_opening := True\<rparr>)) = None
   \<and> nominal (head_step (script (hass (example_cover\<lparr>attr_is_opening := True\<rparr>))))
   \<and> \<not> attr_is_opening (fst (async_stop_cover (example_cover\<lparr>attr_is_opening := True\<rparr>)))
   \<and> attr_current_cover_position (fst (async_stop_cover (example_cover\<lparr>attr_is_opening := True\<rparr>)))
        = Some 0
   \<and> trace (hass (fst (async_stop_cover (example_cover\<lparr>attr_is_opening := True\<rparr>))))
        = [Publish_call ''STOP'', Mqtt_publish ''relay/cmd'' ''STOP'', Write_state (Some 0) False False]
   \<and> last (trace (hass (fst (async_stop_cover (example_cover\<lparr>attr_is_opening := True\<rparr>)))))
        = Write_state (Some 0) False False"
  using stop_clears_flags_keeps_position [of "example_cover\<lparr>attr_is_opening := True\<rparr>"]
  by (simp add: example_cover_fields)

section \<open>Moving to a position\<close>





text \<open>
  Claim C4. For every integer \<open>p\<close> from 0 to 100, a call with target \<open>p\<close> on a cover at
  position \<open>p\<close>, with its store attached and no awaited call raising, raises nothing
  and leaves the position at \<open>p\<close>; the publisher is handed the stop payload, the close
  payload and the stop payload again, and nothing else; exactly one document is
  saved, \<open>p\<close> under the cover's identifier; the loop body never runs (no sleep). With
  MQTT loaded, these three payloads are what is published.
\<close>

theorem set_position_to_current_position:
  assumes pos: "attr_current_cover_position w = Some (of_int p)"
    and range: "0 \<le> p" "p \<le> 100"
    and quiet: "list_all unfailing (script (hass w))"
    and attached: "store w = Some key"
  shows "snd (async_set_cover_position (Some p) w) = None
    \<and> attr_current_cover_position (fst (async_set_cover_position (Some p) w)) = Some (of_int p)
    \<and> publish_calls (trace (hass (fst (async_set_cover_position (Some p) w)))) =
        publish_calls (trace (hass w)) @
          [mqtt_payload_stop w, mqtt_payload_close w, mqtt_payload_stop w]
    \<and> saved (trace (hass (fst (async_set_cover_position (Some p) w)))) =
        saved (trace (hass w)) @ [[(unique_id w, Some (of_int p))]]
    \<and> slept (trace (hass (fst (async_set_cover_position (Some p) w)))) = slept (trace (hass w))
    \<and> (list_all nominal (script (hass w)) \<longrightarrow>
         published (trace (hass (fst (async_set_cover_position (Some p) w)))) =
           published (trace (hass w)) @
             [mqtt_payload_stop w, mqtt_payload_close w, mqtt_payload_stop w])"
proof -
  note steps = async_set_cover_position_def locked_section_def Let_def
    fst_and_then snd_and_then fst_try_finally snd_try_finally
    snd_stop snd_publish snd_save hass_save flags_save
    unfailing_head list_all_tl requested_target_in_range
    sampling_loop_exit loop_condition_def
  have ok: "snd (async_set_cover_position (Some p) w) = None"
    using assms by (simp add: steps)
  have same: "attr_current_cover_position (fst (async_set_cover_position (Some p) w))
      = Some (of_int p)"
    using assms by (simp add: steps)
  have calls: "publish_calls (trace (hass (fst (async_set_cover_position (Some p) w)))) =
        publish_calls (trace (hass w)) @
          [mqtt_payload_stop w, mqtt_payload_close w, mqtt_payload_stop w]"
    using assms by (simp add: steps)
  have saves: "saved (trace (hass (fst (async_set_cover_position (Some p) w)))) =
        saved (trace (hass w)) @ [[(unique_id w, Some (of_int p))]]"
    using assms by (simp add: steps)
  have sleeps: "slept (trace (hass (fst (async_set_cover_position (Some p) w))))
      = slept (trace (hass w))"
    using assms by (simp add: steps)
  have sent: "published (trace (hass (fst (async_set_cover_position (Some p) w)))) =
           published (trace (hass w)) @
             [mqtt_payload_stop w, mqtt_payload_close w, mqtt_payload_stop w]"
    if "list_all nominal (script (hass w))"
    using that assms by (simp add: steps nominal_head)
  from ok same calls saves sleeps sent show ?thesis by blast
qed


theorem set_position_to_current_position_witness:
  "attr_current_cover_position (example_cover\<lparr>attr_current_cover_position := Some 40\<rparr>)
     = Some (of_int 40)
   \<and> list_all unfailing (script (hass (example_cover\<lparr>attr_current_cover_position := Some 40\<rparr>)))
   \<and> list_all nominal (script (hass (example_cover\<lparr>attr_current_cover_position := Some 40\<rparr>)))
   \<and> snd (async_set_cover_position (Some 40)
        (example_cover\<lparr>attr_current_cover_position := Some 40\<rparr>)) = None
   \<and> attr_current_cover_position (fst (async_set_cover_position (Some 40)
        (example_cover\<lparr>attr_current_cover_position := Some 40\<rparr>))) = Some 40
   \<and> published (trace (hass (fst (async_set_cover_position (Some 40)
        (example_cover\<lparr>attr_current_cover_position := Some 40\<rparr>))))) = [''STOP'', ''CLOSE'', ''STOP'']
   \<and> saved (trace (hass (fst (async_set_cover_position (Some 40)
        (example_cover\<lparr>attr_current_cover_position := Some 40\<rparr>))))) = [[(''blind'', Some 40)]]
   \<and> slept (trace (hass (fst (async_set_cover_position (Some 40)
        (example_cover\<lparr>attr_current_cover_position := Some 40\<rparr>))))) = []"
  using set_position_to_current_position
    [of "example_cover\<lparr>attr_current_cover_position := Some 40\<rparr>" 40 DOMAIN]
  by (simp add: example_cover_fields)




section \<open>Sequences of operations\<close>

text \<open>
  Claim C2. Take a cover whose position is between 0 and 100 and whose trace so far
  shows only such positions, and run any sequence of set-position, open, close, stop
  and calibrate operations on it, each with any target and under any behaviour of the
  collaborators and of the other tasks (an overlapping call acts on a running one by
  the stop it requests at a suspension). Then the position is between 0 and 100 after
  every operation of the sequence; every state announced and every document saved on
  the way (each pass of the loop, each loop exit) shows a position between 0 and 100;
  and after a sequence that is not empty both flags are false.
\<close>

theorem position_stays_within_limits:
  assumes "good_position (attr_current_cover_position w)"
    and "list_all in_range_event (trace (hass w))"
  shows "(\<forall>n. good_position (attr_current_cover_position (run_operations (take n ops) w)))
    \<and> list_all in_range_event (trace (hass (run_operations ops w)))
    \<and> (ops \<noteq> [] \<longrightarrow> \<not> attr_is_opening (run_operations ops w)
                     \<and> \<not> attr_is_closing (run_operations ops w))"
proof -
  have start: "within_limits w"
    using assms by (simp add: within_limits_def)
  have "within_limits (run_operations (take n ops) w)" for n
    using start by (rule within_limits_operations)
  then have prefixes:
    "\<forall>n. good_position (attr_current_cover_position (run_operations (take n ops) w))"
    by (simp add: within_limits_def)
  have "within_limits (run_operations ops w)"
    using start by (rule within_limits_operations)
  then have events: "list_all in_range_event (trace (hass (run_operations ops w)))"
    by (simp add: within_limits_def)
  from prefixes events flags_operations[of ops w] show ?thesis by blast
qed

theorem position_stays_within_limits_witness:
  "good_position (attr_current_cover_position example_cover)
   \<and> list_all in_range_event (trace (hass example_cover))
   \<and> good_position (attr_current_cover_position
        (run_operations [Open_cover, Set_position (Some 30), Stop_cover, Calibrate]
           example_cover))
   \<and> list_all in_range_event (trace (hass
        (run_operations [Open_cover, Set_position (Some 30), Stop_cover, Calibrate]
           example_cover)))
   \<and> \<not> attr_is_opening
        (run_operations [Open_cover, Set_position (Some 30), Stop_cover, Calibrate]
           example_cover)
   \<and> \<not> attr_is_closing
        (run_operations [Open_cover, Set_position (Some 30), Stop_cover, Calibrate]
           example_cover)"
proof -
  have start: "good_position (attr_current_cover_position example_cover)"
    "list_all in_range_event (trace (hass example_cover))"
    by (simp_all add: example_cover_fields good_position_def MIN_POSITION_def
        MAX_POSITION_def)
  note run = position_stays_within_limits
    [OF start, of "[Open_cover, Set_position (Some 30), Stop_cover, Calibrate]"]
  from run have "good_position (attr_current_cover_position
      (run_operations (take 4 [Open_cover, Set_position (Some 30), Stop_cover, Calibrate])
         example_cover))"
    by blast
  then have "good_position (attr_current_cover_position
      (run_operations [Open_cover, Set_position (Some 30), Stop_cover, Calibrate]
         example_cover))"
    by simp
  with start run show ?thesis by simp
qed

section \<open>Persistence\<close>

text \<open>
  Claim C10. Every document that \<^verbatim>\<open>async_set_cover_position\<close> or \<^verbatim>\<open>async_calibrate\<close>
  saves, in any state and whatever the collaborators do, has exactly one key, the
  identifier of this cover. When the store is attached and no awaited call raises,
  the document stored under the key after the call is that single pair (the final
  position after a move from a known position, 0 after a calibration): the position
  of any other identifier, whatever the store held for it before, is no longer
  there.
\<close>

theorem save_replaces_document:
  "(\<exists>docs. saved (trace (hass (fst (async_set_cover_position kw w)))) =
        saved (trace (hass w)) @ docs
      \<and> list_all (\<lambda>d. map fst d = [unique_id w]) docs)
   \<and> (\<exists>docs. saved (trace (hass (fst (async_calibrate w)))) = saved (trace (hass w)) @ docs
      \<and> list_all (\<lambda>d. map fst d = [unique_id w]) docs)
   \<and> (list_all unfailing (script (hass w)) \<and> store w = Some key \<longrightarrow>
        storage (hass (fst (async_calibrate w))) key = Some [(unique_id w, Some 0)]
        \<and> (other \<noteq> unique_id w \<longrightarrow>
             stored_value (hass (fst (async_calibrate w))) key other = None)
        \<and> (attr_current_cover_position w \<noteq> None \<longrightarrow>
             storage (hass (fst (async_set_cover_position kw w))) key =
               Some [(unique_id w,
                      attr_current_cover_position (fst (async_set_cover_position kw w)))]
             \<and> (other \<noteq> unique_id w \<longrightarrow>
                  stored_value (hass (fst (async_set_cover_position kw w))) key other = None)))"
proof -
  have move_docs: "\<exists>docs. saved (trace (hass (fst (async_set_cover_position kw w)))) =
        saved (trace (hass w)) @ docs
      \<and> list_all (\<lambda>d. map fst d = [unique_id w]) docs"
  proof (cases "snd (async_stop_cover w)")
    case None
    from saved_locked_section[of kw "fst (async_stop_cover w)"]
    obtain docs where
      "saved (trace (hass (fst (locked_section kw (fst (async_stop_cover w)))))) =
         saved (trace (hass w)) @ docs"
      "list_all (\<lambda>d. map fst d = [unique_id w]) docs"
      by auto
    with None show ?thesis
      by (simp add: async_set_cover_position_def fst_and_then fst_try_finally)
  next
    case (Some e)
    then show ?thesis
      by (simp add: async_set_cover_position_def fst_and_then)
  qed
  have calibrate_docs: "\<exists>docs. saved (trace (hass (fst (async_calibrate w)))) =
        saved (trace (hass w)) @ docs
      \<and> list_all (\<lambda>d. map fst d = [unique_id w]) docs"
    by (auto simp: async_calibrate_def fst_and_then split: option.splits)
  have calibrate_store:
    "storage (hass (fst (async_calibrate w))) key = Some [(unique_id w, Some 0)]"
    if "list_all unfailing (script (hass w))" "store w = Some key"
    using that
    by (simp add: async_calibrate_def fst_and_then snd_and_then snd_publish snd_sleep
        snd_save hass_save unfailing_head list_all_tl)
  have move_store: "storage (hass (fst (async_set_cover_position kw w))) key =
               Some [(unique_id w,
                      attr_current_cover_position (fst (async_set_cover_position kw w)))]"
    if quiet: "list_all unfailing (script (hass w))" and attached: "store w = Some key"
      and pos: "attr_current_cover_position w \<noteq> None"
  proof -
    let ?w1 = "fst (async_stop_cover w)"
    from pos obtain p0 where p0: "attr_current_cover_position w = Some p0" by auto
    have first: "snd (async_stop_cover w) = None"
      using quiet by (simp add: snd_stop unfailing_head)
    have "storage (hass (fst (locked_section kw ?w1))) key =
        Some [(unique_id ?w1, attr_current_cover_position (fst (locked_section kw ?w1)))]"
      using locked_section_saves[of ?w1 key p0 kw] quiet attached p0
      by (simp add: list_all_tl)
    with first show ?thesis
      by (simp add: async_set_cover_position_def fst_and_then fst_try_finally)
  qed
  have gone: "stored_value h key other = None"
    if "storage h key = Some [(unique_id w, v)]" "other \<noteq> unique_id w" for h v
    using that by (simp add: stored_value_def)
  from move_docs calibrate_docs calibrate_store move_store gone show ?thesis by blast
qed

theorem save_replaces_document_witness:
  "list_all unfailing (script (hass (example_cover\<lparr>hass := (hass example_cover)
      \<lparr>storage := [DOMAIN \<mapsto> [(''door'', Some 40), (''blind'', Some 0)]]\<rparr>\<rparr>)))
   \<and> store (example_cover\<lparr>hass := (hass example_cover)
      \<lparr>storage := [DOMAIN \<mapsto> [(''door'', Some 40), (''blind'', Some 0)]]\<rparr>\<rparr>) = Some DOMAIN
   \<and> ''door'' \<noteq> unique_id (example_cover\<lparr>hass := (hass example_cover)
      \<lparr>storage := [DOMAIN \<mapsto> [(''door'', Some 40), (''blind'', Some 0)]]\<rparr>\<rparr>)
   \<and> stored_value (hass (example_cover\<lparr>hass := (hass example_cover)
      \<lparr>storage := [DOMAIN \<mapsto> [(''door'', Some 40), (''blind'', Some 0)]]\<rparr>\<rparr>)) DOMAIN ''door''
        = Some (Some 40)
   \<and> stored_value (hass (fst (async_set_cover_position (Some 0)
        (example_cover\<lparr>hass := (hass example_cover)
          \<lparr>storage := [DOMAIN \<mapsto> [(''door'', Some 40), (''blind'', Some 0)]]\<rparr>\<rparr>))))
        DOMAIN ''door'' = None
   \<and> stored_value (hass (fst (async_calibrate
        (example_cover\<lparr>hass := (hass example_cover)
          \<lparr>storage := [DOMAIN \<mapsto> [(''door'', Some 40), (''blind'', Some 0)]]\<rparr>\<rparr>))))
        DOMAIN ''door'' = None"
  using save_replaces_document
    [of "Some 0" "example_cover\<lparr>hass := (hass example_cover)
          \<lparr>storage := [DOMAIN \<mapsto> [(''door'', Some 40), (''blind'', Some 0)]]\<rparr>\<rparr>"
        DOMAIN "''door''"]
  by (simp add: example_cover_fields stored_value_def)

section \<open>Construction\<close>

lemma closing_time_configured:
  "closing_time (init object_id (entity_config\<lparr>conf_closing_time := Some ms\<rparr>) h)
     = of_int ms / 1000"
  by (simp add: init_def MILISECONDS_IN_SECOND_def)

lemma closing_time_default:
  "closing_time (init object_id (entity_config\<lparr>conf_closing_time := None\<rparr>) h)
     = opening_time (init object_id (entity_config\<lparr>conf_closing_time := None\<rparr>) h) / 1000"
  by (simp add: init_def MILISECONDS_IN_SECOND_def)

text \<open>
  Claim C6 says that a cover configured without a closing time closes in the time it
  opens in. \<^verbatim>\<open>__init__\<close> takes \<^verbatim>\<open>self._opening_time\<close>, already in seconds, as the
  default and divides it by 1000 again: configured with an opening time of 10000 ms
  and no closing time, the cover has an opening time of 10 s and a closing time of
  one hundredth of a second.
\<close>

theorem closing_time_default_divided_twice:
  "opening_time (init object_id
      (entity_config\<lparr>conf_opening_time := Some 10000, conf_closing_time := None\<rparr>) h) = 10
   \<and> closing_time (init object_id
      (entity_config\<lparr>conf_opening_time := Some 10000, conf_closing_time := None\<rparr>) h) = 1 / 100"
  by (simp add: init_def MILISECONDS_IN_SECOND_def)

section \<open>Start-up\<close>

lemma added_to_hass_loads_position:
  "\<not> raises (head_step (script (hass w))) \<Longrightarrow> storage (hass w) DOMAIN = Some d \<Longrightarrow>
   map_of d (unique_id w) = Some (Some p) \<Longrightarrow>
   async_added_to_hass w = (w', e) \<Longrightarrow>
   e = None \<and> attr_current_cover_position w' = Some p"
  by (auto simp: async_added_to_hass_def Let_def)

lemma added_to_hass_defaults_missing_key:
  "\<not> raises (head_step (script (hass w))) \<Longrightarrow> storage (hass w) DOMAIN = Some d \<Longrightarrow>
   map_of d (unique_id w) = None \<Longrightarrow>
   async_added_to_hass w = (w', e) \<Longrightarrow>
   e = None \<and> attr_current_cover_position w' = Some 0"
  by (auto simp: async_added_to_hass_def Let_def)

text \<open>
  Claim C7 says that start-up yields position 0 without failing when the store holds
  no document. For a cover fresh from \<^verbatim>\<open>__init__\<close>, in a Home Assistant where nothing
  was ever saved under the key and the load itself does not raise,
  \<^verbatim>\<open>async_added_to_hass\<close> raises \<^verbatim>\<open>AttributeError\<close> and the position stays \<^verbatim>\<open>None\<close>.
\<close>

theorem added_to_hass_without_document_raises:
  "snd (async_added_to_hass
          (init object_id entity_config (h\<lparr>storage := Map.empty, script := []\<rparr>)))
     = Some AttributeError
   \<and> attr_current_cover_position
        (fst (async_added_to_hass
          (init object_id entity_config (h\<lparr>storage := Map.empty, script := []\<rparr>)))) = None"
  by (simp add: async_added_to_hass_def init_def Let_def head_step_def idle_step_def)

section \<open>Calibration\<close>

text \<open>
  Claim C5. In every run of \<^verbatim>\<open>async_calibrate\<close> in which no awaited call raises, on a
  cover whose store is attached: the publisher is handed, in this order, the open,
  stop, close and stop payloads; the four sleeps last the opening time plus one
  second, one second, the closing time plus one second, and one second; the position
  ends at 0; exactly one document is saved, the position 0 under the cover's
  identifier, and it is what the store then holds. When MQTT is loaded throughout,
  the whole trace of the run is: publish open, sleep, publish stop, sleep, publish
  close, sleep, publish stop, sleep, the save, the announcement of position 0 with
  both flags false.
\<close>

theorem calibrate_sequence:
  assumes quiet: "list_all unfailing (script (hass w))"
    and attached: "store w = Some key"
  shows "snd (async_calibrate w) = None
    \<and> attr_current_cover_position (fst (async_calibrate w)) = Some 0
    \<and> publish_calls (trace (hass (fst (async_calibrate w)))) =
        publish_calls (trace (hass w)) @
          [mqtt_payload_open w, mqtt_payload_stop w, mqtt_payload_close w, mqtt_payload_stop w]
    \<and> slept (trace (hass (fst (async_calibrate w)))) =
        slept (trace (hass w)) @ [opening_time w + 1, 1, closing_time w + 1, 1]
    \<and> saved (trace (hass (fst (async_calibrate w)))) =
        saved (trace (hass w)) @ [[(unique_id w, Some 0)]]
    \<and> storage (hass (fst (async_calibrate w))) key = Some [(unique_id w, Some 0)]
    \<and> (list_all nominal (script (hass w)) \<longrightarrow>
         trace (hass (fst (async_calibrate w))) =
           trace (hass w) @
             [Publish_call (mqtt_payload_open w),
              Mqtt_publish (mqtt_command_topic w) (mqtt_payload_open w),
              Sleep (opening_time w + 1),
              Publish_call (mqtt_payload_stop w),
              Mqtt_publish (mqtt_command_topic w) (mqtt_payload_stop w),
              Sleep 1,
              Publish_call (mqtt_payload_close w),
              Mqtt_publish (mqtt_command_topic w) (mqtt_payload_close w),
              Sleep (closing_time w + 1),
              Publish_call (mqtt_payload_stop w),
              Mqtt_publish (mqtt_command_topic w) (mqtt_payload_stop w),
              Sleep 1,
              Save key [(unique_id w, Some 0)],
              Write_state (Some 0) False False])"
proof -
  note steps = fst_and_then snd_and_then snd_publish snd_sleep snd_save hass_save
    flags_save unfailing_head list_all_tl
  have ok: "snd (async_calibrate w) = None"
    using quiet attached by (simp add: async_calibrate_def steps)
  have pos: "attr_current_cover_position (fst (async_calibrate w)) = Some 0"
    using quiet attached by (simp add: async_calibrate_def steps)
  have calls: "publish_calls (trace (hass (fst (async_calibrate w)))) =
        publish_calls (trace (hass w)) @
          [mqtt_payload_open w, mqtt_payload_stop w, mqtt_payload_close w, mqtt_payload_stop w]"
    using quiet attached by (simp add: async_calibrate_def steps)
  have sleeps: "slept (trace (hass (fst (async_calibrate w)))) =
        slept (trace (hass w)) @ [opening_time w + 1, 1, closing_time w + 1, 1]"
    using quiet attached by (simp add: async_calibrate_def steps)
  have saves: "saved (trace (hass (fst (async_calibrate w)))) =
        saved (trace (hass w)) @ [[(unique_id w, Some 0)]]"
    using quiet attached by (simp add: async_calibrate_def steps)
  have stored: "storage (hass (fst (async_calibrate w))) key = Some [(unique_id w, Some 0)]"
    using quiet attached by (simp add: async_calibrate_def steps)
  have exact: "trace (hass (fst (async_calibrate w))) =
           trace (hass w) @
             [Publish_call (mqtt_payload_open w),
              Mqtt_publish (mqtt_command_topic w) (mqtt_payload_open w),
              Sleep (opening_time w + 1),
              Publish_call (mqtt_payload_stop w),
              Mqtt_publish (mqtt_command_topic w) (mqtt_payload_stop w),
              Sleep 1,
              Publish_call (mqtt_payload_close w),
              Mqtt_publish (mqtt_command_topic w) (mqtt_payload_close w),
              Sleep (closing_time w + 1),
              Publish_call (mqtt_payload_stop w),
              Mqtt_publish (mqtt_command_topic w) (mqtt_payload_stop w),
              Sleep 1,
              Save key [(unique_id w, Some 0)],
              Write_state (Some 0) False False]"
    if "list_all nominal (script (hass w))"
    using that quiet attached
    by (simp add: async_calibrate_def steps trace_publish nominal_head)
  from ok pos calls sleeps saves stored exact show ?thesis by blast
qed

theorem calibrate_sequence_witness:
  "list_all unfailing (script (hass (example_cover\<lparr>attr_current_cover_position := Some 40\<rparr>)))
   \<and> list_all nominal (script (hass (example_cover\<lparr>attr_current_cover_position := Some 40\<rparr>)))
   \<and> snd (async_calibrate (example_cover\<lparr>attr_current_cover_position := Some 40\<rparr>)) = None
   \<and> attr_current_cover_position
        (fst (async_calibrate (example_cover\<lparr>attr_current_cover_position := Some 40\<rparr>))) = Some 0
   \<and> trace (hass (fst (async_calibrate (example_cover\<lparr>attr_current_cover_position := Some 40\<rparr>))))
        = [Publish_call ''OPEN'', Mqtt_publish ''relay/cmd'' ''OPEN'', Sleep 11,
           Publish_call ''STOP'', Mqtt_publish ''relay/cmd'' ''STOP'', Sleep 1,
           Publish_call ''CLOSE'', Mqtt_publish ''relay/cmd'' ''CLOSE'', Sleep 11,
           Publish_call ''STOP'', Mqtt_publish ''relay/cmd'' ''STOP'', Sleep 1,
           Save DOMAIN [(''blind'', Some 0)], Write_state (Some 0) False False]
   \<and> saved (trace (hass (fst (async_calibrate
        (example_cover\<lparr>attr_current_cover_position := Some 40\<rparr>))))) = [[(''blind'', Some 0)]]"
  using calibrate_sequence [of "example_cover\<lparr>attr_current_cover_position := Some 40\<rparr>" DOMAIN]
  by (simp add: example_cover_fields)

end
